theory Spec2Isabelle
  imports Main "HOL-Library.Sublist" "HOL-Library.Multiset"
begin

section \<open>glog: the rotating file writer and the slog handler\<close>

text \<open>
  A shallow embedding of \<^verbatim>\<open>file_writer.go\<close> and \<^verbatim>\<open>handler.go\<close>. Go strings are
  byte sequences and are modelled as \<^typ>\<open>string\<close>; Go's \<^verbatim>\<open>int\<close> and
  \<^verbatim>\<open>time.Duration\<close> are modelled as \<^typ>\<open>int\<close>, with the 64-bit wrap-around written
  out where the source multiplies.
\<close>

subsection \<open>Strings: \<^verbatim>\<open>strings.Contains\<close> and the two regular expressions\<close>

text \<open>\<^verbatim>\<open>strings.Contains(s, substr)\<close>: \<open>substr\<close> occurs in \<open>s\<close> as a contiguous run.\<close>

definition Contains :: "string \<Rightarrow> string \<Rightarrow> bool" where
  "Contains s substr = sublist substr s"

datatype duration = Second | Minute

text \<open>
  \<^verbatim>\<open>regexp.MustCompile(`2006|0[1-6]|[1-5]|15`).ReplaceAllString(s, "*")\<close>. Go's
  regexp finds the leftmost match and, among the matches starting there, the one of the
  earliest alternative; matches do not overlap. The alternatives are tried in the order
  in which the pattern lists them, so at \<open>15\<close> the class \<open>[1-5]\<close> matches the \<open>1\<close>
  alone and the last alternative is never the one chosen.
\<close>

function replaceTimeTokens :: "string \<Rightarrow> string" where
  "replaceTimeTokens [] = []"
| "replaceTimeTokens (c # cs) =
     (if prefix ''2006'' (c # cs) then CHR ''*'' # replaceTimeTokens (drop 3 cs)
      else if c = CHR ''0'' \<and> cs \<noteq> [] \<and> hd cs \<in> set ''123456''
        then CHR ''*'' # replaceTimeTokens (drop 1 cs)
      else if c \<in> set ''12345'' then CHR ''*'' # replaceTimeTokens cs
      else if prefix ''15'' (c # cs) then CHR ''*'' # replaceTimeTokens (drop 1 cs)
      else c # replaceTimeTokens cs)"
  by pat_completeness auto
termination
  by (relation "measure length") auto

text \<open>\<^verbatim>\<open>regexp.MustCompile(`\*+`).ReplaceAllString(s, "*")\<close>: every maximal run of
  stars becomes one star.\<close>

function collapseStars :: "string \<Rightarrow> string" where
  "collapseStars [] = []"
| "collapseStars (c # cs) =
     (if c = CHR ''*'' then CHR ''*'' # collapseStars (dropWhile (\<lambda>d. d = CHR ''*'') cs)
      else c # collapseStars cs)"
  by pat_completeness auto
termination
  by (relation "measure length") (auto simp: length_dropWhile_le less_Suc_eq_le)

text \<open>The local variable \<^verbatim>\<open>pattern\<close> of \<^verbatim>\<open>buildGlobPattern\<close>, before the join with
  the directory.\<close>

definition globName :: "string \<Rightarrow> string" where
  "globName fileName = collapseStars (replaceTimeTokens fileName)"

subsection \<open>The numeric tokens of a Go time layout\<close>

text \<open>
  What \<^verbatim>\<open>time.Format\<close> takes for a numeric token when it scans a layout from the left
  (\<^verbatim>\<open>nextStdChunk\<close> of Go's \<^verbatim>\<open>time\<close> package, the cases of the digits): at \<open>0\<close> a
  following \<open>1\<close> to \<open>6\<close> makes a two-digit token (month, day, hour, minute, second,
  year); at \<open>1\<close> a following \<open>5\<close> makes the hour \<open>15\<close>, else \<open>1\<close> is the month; at
  \<open>2\<close> a following \<open>006\<close> makes the year, else \<open>2\<close> is the day; \<open>3\<close>, \<open>4\<close> and \<open>5\<close>
  stand alone (hour, minute, second). Every other character is literal here.
\<close>

datatype piece = Token string | Lit char

function timeTokens :: "string \<Rightarrow> piece list" where
  "timeTokens [] = []"
| "timeTokens (c # cs) =
     (if c = CHR ''0'' \<and> cs \<noteq> [] \<and> hd cs \<in> set ''123456''
        then Token [c, hd cs] # timeTokens (drop 1 cs)
      else if c = CHR ''1'' \<and> prefix ''5'' cs then Token ''15'' # timeTokens (drop 1 cs)
      else if c = CHR ''2'' \<and> prefix ''006'' cs then Token ''2006'' # timeTokens (drop 3 cs)
      else if c \<in> set ''12345'' then Token [c] # timeTokens cs
      else Lit c # timeTokens cs)"
  by pat_completeness auto
termination
  by (relation "measure length") auto

text \<open>The seconds tokens of a layout are \<open>05\<close> and \<open>5\<close>.\<close>

definition hasSecondsToken :: "string \<Rightarrow> bool" where
  "hasSecondsToken layout =
     (Token ''05'' \<in> set (timeTokens layout) \<or> Token ''5'' \<in> set (timeTokens layout))"

text \<open>The glob as the specification words it: each token becomes a star, each literal
  character stays, and runs of stars collapse.\<close>

fun wildcard :: "piece \<Rightarrow> string" where
  "wildcard (Token t) = ''*''"
| "wildcard (Lit c) = [c]"

definition globOfTokens :: "string \<Rightarrow> string" where
  "globOfTokens fileName = collapseStars (concat (map wildcard (timeTokens fileName)))"


text \<open>The characters of a file name that belong to no token.\<close>

fun literal :: "piece \<Rightarrow> string" where
  "literal (Token t) = []"
| "literal (Lit c) = [c]"

subsection \<open>The file system the writer runs on\<close>

text \<open>
  The operating system as the writer sees it: a map from paths to entries, a table of the
  operations that fail (a missing parent directory, a permission, a full disk), and the
  clock. The table makes every error return of the source a branch that can be taken.
\<close>

type_synonym path = string

datatype error =
  ErrNotExist | ErrPermission | ErrIsDir | ErrClosed | ErrInvalid | ErrBadPattern | ErrNoSpace
  | ErrIO | ErrNilPointer

record entry =
  isDir :: bool
  modTime :: int
  content :: string

datatype op = OpOpen | OpWrite | OpClose | OpStat | OpRemove

record world =
  fsys :: "path \<rightharpoonup> entry"
  fault :: "op \<Rightarrow> path \<Rightarrow> error option"
  now :: int

text \<open>An \<^verbatim>\<open>*os.File\<close>: the path it was opened on and whether it has been closed.\<close>

record os_File =
  fname :: path
  closed :: bool

text \<open>\<^verbatim>\<open>os.OpenFile(name, O_CREATE|O_WRONLY|O_APPEND, 0644)\<close>: creates the file when it
  is missing, never truncates.\<close>

definition os_OpenFile :: "world \<Rightarrow> path \<Rightarrow> error + (world \<times> os_File)" where
  "os_OpenFile w p =
     (case fault w OpOpen p of
        Some e \<Rightarrow> Inl e
      | None \<Rightarrow>
         (case fsys w p of
            Some e \<Rightarrow>
              if isDir e then Inl ErrIsDir else Inr (w, \<lparr>fname = p, closed = False\<rparr>)
          | None \<Rightarrow>
              Inr (w\<lparr>fsys := (fsys w)(p \<mapsto> \<lparr>isDir = False, modTime = now w, content = []\<rparr>)\<rparr>,
                   \<lparr>fname = p, closed = False\<rparr>)))"

text \<open>
  \<^verbatim>\<open>(*os.File).Write\<close> on a file opened for appending. A nil receiver gives
  \<^verbatim>\<open>ErrInvalid\<close>, a closed file \<^verbatim>\<open>ErrClosed\<close>; a write of no bytes changes nothing;
  otherwise the bytes are appended, all of them or (with an error) none. A file removed
  while open takes the bytes without any path showing them.
\<close>

definition File_Write :: "world \<Rightarrow> os_File option \<Rightarrow> string \<Rightarrow> world \<times> int \<times> error option" where
  "File_Write w ho p =
     (case ho of
        None \<Rightarrow> (w, 0, Some ErrInvalid)
      | Some h \<Rightarrow>
          if closed h then (w, 0, Some ErrClosed)
          else if p = [] then (w, 0, None)
          else (case fault w OpWrite (fname h) of
                  Some e \<Rightarrow> (w, 0, Some e)
                | None \<Rightarrow>
                   (case fsys w (fname h) of
                      None \<Rightarrow> (w, int (length p), None)
                    | Some e \<Rightarrow>
                       (w\<lparr>fsys := (fsys w)(fname h \<mapsto> e\<lparr>content := content e @ p, modTime := now w\<rparr>)\<rparr>,
                        int (length p), None))))"

text \<open>\<^verbatim>\<open>(*os.File).Close\<close>: the descriptor is released even when the call reports an
  error; a second close of the same file reports \<^verbatim>\<open>ErrClosed\<close>.\<close>

definition File_Close :: "world \<Rightarrow> os_File \<Rightarrow> os_File \<times> error option" where
  "File_Close w h =
     (if closed h then (h, Some ErrClosed)
      else (h\<lparr>closed := True\<rparr>, fault w OpClose (fname h)))"

definition os_Stat :: "world \<Rightarrow> path \<Rightarrow> error + entry" where
  "os_Stat w p =
     (case fault w OpStat p of
        Some e \<Rightarrow> Inl e
      | None \<Rightarrow> (case fsys w p of None \<Rightarrow> Inl ErrNotExist | Some e \<Rightarrow> Inr e))"

definition os_Remove :: "world \<Rightarrow> path \<Rightarrow> error + world" where
  "os_Remove w p =
     (case fault w OpRemove p of
        Some e \<Rightarrow> Inl e
      | None \<Rightarrow>
         (case fsys w p of
            None \<Rightarrow> Inl ErrNotExist
          | Some e \<Rightarrow> Inr (w\<lparr>fsys := (fsys w)(p := None)\<rparr>)))"

subsection \<open>\<^verbatim>\<open>bufio.Writer\<close>\<close>

text \<open>
  The buffer of a \<^verbatim>\<open>bufio.Writer\<close> of the default size, and the error it keeps once a
  write has failed (every later \<^verbatim>\<open>Write\<close> and \<^verbatim>\<open>Flush\<close> returns that error). The writer
  only ever wraps its own \<^verbatim>\<open>f.file\<close>, so the wrapped file is passed in.
\<close>

record bufio_Writer =
  pending :: string
  berr :: "error option"

definition defaultBufSize :: nat where
  "defaultBufSize = 4096"

definition bufio_NewWriter :: bufio_Writer where
  "bufio_NewWriter = \<lparr>pending = [], berr = None\<rparr>"

definition bufio_Flush ::
  "world \<Rightarrow> os_File option \<Rightarrow> bufio_Writer \<Rightarrow> world \<times> bufio_Writer \<times> error option" where
  "bufio_Flush w ho b =
     (if berr b \<noteq> None then (w, b, berr b)
      else if pending b = [] then (w, b, None)
      else (case File_Write w ho (pending b) of
              (w', n, Some e) \<Rightarrow> (w', b\<lparr>berr := Some e\<rparr>, Some e)
            | (w', n, None) \<Rightarrow> (w', b\<lparr>pending := []\<rparr>, None)))"

text \<open>
  \<^verbatim>\<open>(*bufio.Writer).Write\<close>. Bytes that fit are only copied into the buffer. When they
  do not fit and the buffer is empty they go straight to the file; when the buffer holds
  something it is filled up and flushed first, and the rest is then copied or, if it is
  still larger than the buffer, written straight to the file.
\<close>

definition bufio_Write ::
  "world \<Rightarrow> os_File option \<Rightarrow> bufio_Writer \<Rightarrow> string \<Rightarrow> world \<times> bufio_Writer \<times> int \<times> error option" where
  "bufio_Write w ho b p =
     (if berr b \<noteq> None then (w, b, 0, berr b)
      else if length p \<le> defaultBufSize - length (pending b)
        then (w, b\<lparr>pending := pending b @ p\<rparr>, int (length p), None)
      else if pending b = [] then
        (case File_Write w ho p of
           (w', n, Some e) \<Rightarrow> (w', b\<lparr>berr := Some e\<rparr>, n, Some e)
         | (w', n, None) \<Rightarrow> (w', b, n, None))
      else
        (let k = defaultBufSize - length (pending b) in
         case bufio_Flush w ho (b\<lparr>pending := pending b @ take k p\<rparr>) of
           (w1, b1, Some e) \<Rightarrow> (w1, b1, int k, Some e)
         | (w1, b1, None) \<Rightarrow>
            (if length (drop k p) \<le> defaultBufSize
               then (w1, b1\<lparr>pending := drop k p\<rparr>, int (length p), None)
             else (case File_Write w1 ho (drop k p) of
                     (w2, n, Some e) \<Rightarrow> (w2, b1\<lparr>berr := Some e\<rparr>, int k + n, Some e)
                   | (w2, n, None) \<Rightarrow> (w2, b1, int k + n, None)))))"

subsection \<open>What the writer takes from the standard library\<close>

text \<open>
  \<^verbatim>\<open>filepath.Dir\<close>, \<^verbatim>\<open>Base\<close>, \<^verbatim>\<open>Join\<close> and \<^verbatim>\<open>Glob\<close>, \<^verbatim>\<open>time.Time.Format\<close> and
  \<^verbatim>\<open>sort.Slice\<close> with the comparison of \<^verbatim>\<open>cleanOldFiles\<close> are parameters of the model.
  \<^verbatim>\<open>sort.Slice\<close> is not stable: which of two files of the same modification time comes
  first is its choice.
\<close>

record env =
  filepath_Dir :: "string \<Rightarrow> string"
  filepath_Base :: "string \<Rightarrow> string"
  filepath_Join :: "string \<Rightarrow> string \<Rightarrow> string"
  filepath_Glob :: "(path \<rightharpoonup> entry) \<Rightarrow> string \<Rightarrow> error + path list"
  time_Format :: "int \<Rightarrow> string \<Rightarrow> string"
  sort_Slice :: "(path \<times> int) list \<Rightarrow> (path \<times> int) list"


subsection \<open>\<^verbatim>\<open>FileWriter\<close>\<close>

text \<open>
  The fields of the struct. The mutex is not modelled: every method below runs as one
  step, which is what holding \<^verbatim>\<open>f.mu\<close> gives. Of the context, its cancel function and
  the \<^verbatim>\<open>done\<close> channel only one fact is kept: whether the background loop has been
  stopped.
\<close>

record FileWriter =
  path :: string
  dir :: string
  fileName :: string
  current :: string
  file' :: "os_File option"
  buf :: "bufio_Writer option"
  maxFiles :: int
  flushInterval :: int
  loopStopped :: bool

definition time_Second :: int where
  "time_Second = 1000000000"

text \<open>A product of two 64-bit integers, as Go computes it.\<close>

definition wrap64 :: "int \<Rightarrow> int" where
  "wrap64 x = (x + 2 ^ 63) mod 2 ^ 64 - 2 ^ 63"

definition getCheckInterval :: "FileWriter \<Rightarrow> duration" where
  "getCheckInterval f =
     (if Contains (fileName f) ''05'' \<or> Contains (fileName f) ''5'' then Second else Minute)"

definition buildGlobPattern :: "env \<Rightarrow> FileWriter \<Rightarrow> string" where
  "buildGlobPattern E f = filepath_Join E (dir f) (globName (fileName f))"

definition openCurrentLocked :: "world \<Rightarrow> FileWriter \<Rightarrow> world \<times> FileWriter \<times> error option" where
  "openCurrentLocked w f =
     (case os_OpenFile w (current f) of
        Inl e \<Rightarrow> (w, f\<lparr>file' := None, buf := None\<rparr>, Some e)
      | Inr (w', h) \<Rightarrow>
          (w', f\<lparr>file' := Some h,
                 buf := (if 0 < flushInterval f then Some bufio_NewWriter else None)\<rparr>, None))"

definition Write :: "world \<Rightarrow> FileWriter \<Rightarrow> string \<Rightarrow> world \<times> FileWriter \<times> int \<times> error option" where
  "Write w f p =
     (case (if file' f = None then openCurrentLocked w f else (w, f, None)) of
        (w1, f1, Some e) \<Rightarrow> (w1, f1, 0, Some e)
      | (w1, f1, None) \<Rightarrow>
          if flushInterval f1 = 0 then
            (case File_Write w1 (file' f1) p of (w2, n, e) \<Rightarrow> (w2, f1, n, e))
          else
            (case bufio_Write w1 (file' f1)
                    (case buf f1 of None \<Rightarrow> bufio_NewWriter | Some b \<Rightarrow> b) p of
               (w2, b', n, e) \<Rightarrow> (w2, f1\<lparr>buf := Some b'\<rparr>, n, e)))"

text \<open>The block \<^verbatim>\<open>if f.buf != nil { if err := f.buf.Flush(); err != nil { return err };
  f.buf = nil }\<close>, which \<^verbatim>\<open>Close\<close> and \<^verbatim>\<open>checkAndRotate\<close> both begin with: the writer
  after it, and the error on which the caller returns.\<close>

definition flushAndDrop :: "world \<Rightarrow> FileWriter \<Rightarrow> world \<times> FileWriter \<times> error option" where
  "flushAndDrop w f =
     (case buf f of
        None \<Rightarrow> (w, f, None)
      | Some b \<Rightarrow>
         (case bufio_Flush w (file' f) b of
            (w1, b1, Some e) \<Rightarrow> (w1, f\<lparr>buf := Some b1\<rparr>, Some e)
          | (w1, b1, None) \<Rightarrow> (w1, f\<lparr>buf := None\<rparr>, None)))"

text \<open>The block \<^verbatim>\<open>if f.file != nil { if err := f.file.Close(); err != nil { return err };
  f.file = nil }\<close> that follows it in both.\<close>

definition closeAndDrop :: "world \<Rightarrow> FileWriter \<Rightarrow> FileWriter \<times> error option" where
  "closeAndDrop w f =
     (case file' f of
        None \<Rightarrow> (f, None)
      | Some h \<Rightarrow>
         (case File_Close w h of
            (h', Some e) \<Rightarrow> (f\<lparr>file' := Some h'\<rparr>, Some e)
          | (h', None) \<Rightarrow> (f\<lparr>file' := None\<rparr>, None)))"

definition Close :: "world \<Rightarrow> FileWriter \<Rightarrow> world \<times> FileWriter \<times> error option" where
  "Close w f =
     (case flushAndDrop w (f\<lparr>loopStopped := True\<rparr>) of
        (w1, f1, Some e) \<Rightarrow> (w1, f1, Some e)
      | (w1, f1, None) \<Rightarrow> (case closeAndDrop w1 f1 of (f2, e) \<Rightarrow> (w1, f2, e)))"

definition flushBuffer :: "world \<Rightarrow> FileWriter \<Rightarrow> world \<times> FileWriter" where
  "flushBuffer w f =
     (case buf f of
        None \<Rightarrow> (w, f)
      | Some b \<Rightarrow> (case bufio_Flush w (file' f) b of (w1, b1, e) \<Rightarrow> (w1, f\<lparr>buf := Some b1\<rparr>)))"

text \<open>The first loop of \<^verbatim>\<open>cleanOldFiles\<close>: the matches that are not the current file,
  can be examined and are not directories, each with its modification time.\<close>

fun collectFiles :: "world \<Rightarrow> path \<Rightarrow> path list \<Rightarrow> (path \<times> int) list" where
  "collectFiles w cur [] = []"
| "collectFiles w cur (m # ms) =
     (if m = cur then collectFiles w cur ms
      else (case os_Stat w m of
              Inl e \<Rightarrow> collectFiles w cur ms
            | Inr info \<Rightarrow>
                if isDir info then collectFiles w cur ms
                else (m, modTime info) # collectFiles w cur ms))"

text \<open>The last loop of \<^verbatim>\<open>cleanOldFiles\<close>: it stops at the first removal that fails.\<close>

fun removeFiles :: "world \<Rightarrow> (path \<times> int) list \<Rightarrow> world \<times> error option" where
  "removeFiles w [] = (w, None)"
| "removeFiles w (x # xs) =
     (case os_Remove w (fst x) of
        Inl e \<Rightarrow> (w, Some e)
      | Inr w' \<Rightarrow> removeFiles w' xs)"

definition cleanOldFiles :: "env \<Rightarrow> world \<Rightarrow> FileWriter \<Rightarrow> world \<times> error option" where
  "cleanOldFiles E w f =
     (if maxFiles f \<le> 0 then (w, None)
      else (case filepath_Glob E (fsys w) (buildGlobPattern E f) of
              Inl e \<Rightarrow> (w, Some e)
            | Inr matches \<Rightarrow>
               (let files = collectFiles w (current f) matches in
                if int (length files) \<le> maxFiles f then (w, None)
                else removeFiles w (drop (nat (maxFiles f)) (sort_Slice E files)))))"

definition checkAndRotate :: "env \<Rightarrow> world \<Rightarrow> FileWriter \<Rightarrow> world \<times> FileWriter" where
  "checkAndRotate E w f =
     (let formattedFileName = time_Format E (now w) (fileName f);
          cur = filepath_Join E (dir f) formattedFileName
      in if cur = current f then (w, f)
         else
          (case flushAndDrop w f of
             (w1, f1, Some e) \<Rightarrow> (w1, f1)
           | (w1, f1, None) \<Rightarrow>
              (case closeAndDrop w1 f1 of
                 (f2, Some e) \<Rightarrow> (w1, f2)
               | (f2, None) \<Rightarrow>
                  (case openCurrentLocked w1 (f2\<lparr>current := cur\<rparr>) of
                     (w3, f3, Some e) \<Rightarrow> (w3, f3)
                   | (w3, f3, None) \<Rightarrow>
                      if 0 < maxFiles f3 then (fst (cleanOldFiles E w3 f3), f3)
                      else (w3, f3)))))"

text \<open>The constructor. The goroutine it starts runs \<^verbatim>\<open>checkAndRotate\<close> and
  \<^verbatim>\<open>flushBuffer\<close> on its tickers; each such run is one call of the functions above.\<close>

definition NewFileWriterWithFlushInterval ::
  "env \<Rightarrow> world \<Rightarrow> string \<Rightarrow> int \<Rightarrow> int \<Rightarrow> world \<times> FileWriter" where
  "NewFileWriterWithFlushInterval E w pth maxF flushIntervalSeconds =
     checkAndRotate E w
       \<lparr>path = pth, dir = filepath_Dir E pth, fileName = filepath_Base E pth, current = [],
        file' = None, buf = None, maxFiles = maxF,
        flushInterval = wrap64 (flushIntervalSeconds * time_Second), loopStopped = False\<rparr>"


subsection \<open>\<^verbatim>\<open>handler.go\<close>: the trace extractor\<close>

text \<open>
  A \<^verbatim>\<open>context.Context\<close> is read through \<^verbatim>\<open>ctx.Value(key)\<close> only, and only at string
  keys: it is a function from those keys to the value stored, \<open>None\<close> for the nil
  interface. A value is a string or something of another type.
\<close>

datatype 'a any = Str string | Other 'a

type_synonym 'a Context = "string \<Rightarrow> 'a any option"

record TraceInfo =
  TraceID :: string
  SpanID :: string

definition traceKeys :: "string list" where
  "traceKeys = [''trace_id'', ''traceId'', ''TraceID'', ''TRACE_ID'']"

definition spanKeys :: "string list" where
  "spanKeys = [''span_id'', ''spanId'', ''SpanID'', ''SPAN_ID'']"

text \<open>Either scan of \<^verbatim>\<open>DefaultTraceExtractor\<close>: the identifier stays empty
  until a key holds a non-empty string, and the scan stops there.\<close>

fun scanKeys :: "'a Context \<Rightarrow> string list \<Rightarrow> string" where
  "scanKeys ctx [] = []"
| "scanKeys ctx (key # keys) =
     (case ctx key of
        None \<Rightarrow> scanKeys ctx keys
      | Some (Other v) \<Rightarrow> scanKeys ctx keys
      | Some (Str tid) \<Rightarrow> if tid \<noteq> [] then tid else scanKeys ctx keys)"

definition DefaultTraceExtractor :: "'a Context \<Rightarrow> TraceInfo option" where
  "DefaultTraceExtractor ctx =
     (let traceID = scanKeys ctx traceKeys;
          spanID = scanKeys ctx spanKeys
      in if traceID = [] \<and> spanID = [] then None
         else Some \<lparr>TraceID = traceID, SpanID = spanID\<rparr>)"

text \<open>The extractor as the specification words it: per identifier, the first key of the
  list, in its order, whose value is a non-empty string.\<close>

definition nonEmptyString :: "'a any option \<Rightarrow> bool" where
  "nonEmptyString v = (case v of Some (Str s) \<Rightarrow> s \<noteq> [] | _ \<Rightarrow> False)"

definition stringOf :: "'a any option \<Rightarrow> string" where
  "stringOf v = (case v of Some (Str s) \<Rightarrow> s | _ \<Rightarrow> [])"

definition firstMatch :: "'a Context \<Rightarrow> string list \<Rightarrow> string" where
  "firstMatch ctx keys =
     (case find (\<lambda>k. nonEmptyString (ctx k)) keys of
        None \<Rightarrow> []
      | Some k \<Rightarrow> stringOf (ctx k))"

subsection \<open>\<^verbatim>\<open>handler.go\<close>: options and the handler\<close>

text \<open>\<^verbatim>\<open>FormatType\<close> and \<^verbatim>\<open>slog.Level\<close> are integer types: any integer can stand in
  an \<^verbatim>\<open>Options\<close>.\<close>

definition FormatLine :: int where "FormatLine = 0"
definition FormatJSON :: int where "FormatJSON = 1"
definition FormatText :: int where "FormatText = 2"

definition LevelDebug :: int where "LevelDebug = - 4"
definition LevelInfo :: int where "LevelInfo = 0"
definition LevelWarn :: int where "LevelWarn = 4"
definition LevelError :: int where "LevelError = 8"

definition defaultTraceIDFieldName :: string where
  "defaultTraceIDFieldName = ''trace_id''"

definition defaultSpanIDFieldName :: string where
  "defaultSpanIDFieldName = ''span_id''"

text \<open>
  An \<^verbatim>\<open>io.Writer\<close> held by a handler: an \<^verbatim>\<open>*os.File\<close> (standard output is one), a
  \<^verbatim>\<open>*FileWriter\<close>, or a value of some other type, given by its state and by its
  \<^verbatim>\<open>Close\<close> method when its type has one (when it implements \<^verbatim>\<open>io.Closer\<close>).
\<close>

datatype 'c writer =
    OsFile os_File
  | FileWriterOf FileWriter
  | Custom 'c "('c \<Rightarrow> 'c \<times> error option) option"

definition os_Stdout :: os_File where
  "os_Stdout = \<lparr>fname = ''/dev/stdout'', closed = False\<rparr>"

text \<open>A \<^verbatim>\<open>ReplaceAttr\<close> function, as \<^verbatim>\<open>mergeReplaceAttr\<close> builds it: the default one
  for the time attribute, a user's, or the first followed by the second.\<close>

datatype 'r replaceAttr = DefaultTimeReplaceAttr | User 'r | Composed "'r replaceAttr" 'r

definition mergeReplaceAttr :: "'r replaceAttr option \<Rightarrow> 'r option \<Rightarrow> 'r replaceAttr option" where
  "mergeReplaceAttr defaultReplace userReplace =
     (case userReplace of
        None \<Rightarrow> defaultReplace
      | Some u \<Rightarrow>
         (case defaultReplace of
            None \<Rightarrow> Some (User u)
          | Some d \<Rightarrow> Some (Composed d u)))"

record ('c, 'x, 'h, 'r) Options =
  Writer :: "'c writer option"
  LogPath :: string
  MaxFiles :: int
  FlushInterval :: int
  Level :: int
  Format :: int
  AddSource :: bool
  ReplaceAttr :: "'r option"
  TraceExtractor :: "'x option"
  TraceIDFieldName :: string
  SpanIDFieldName :: string
  RecordHandler :: "'h option"

definition defaultOptions :: "('c, 'x, 'h, 'r) Options" where
  "defaultOptions =
     \<lparr>Writer = None, LogPath = [], MaxFiles = 0, FlushInterval = 0, Level = LevelInfo,
      Format = FormatLine, AddSource = False, ReplaceAttr = None, TraceExtractor = None,
      TraceIDFieldName = defaultTraceIDFieldName, SpanIDFieldName = defaultSpanIDFieldName,
      RecordHandler = None\<rparr>"

text \<open>\<^verbatim>\<open>slog.HandlerOptions\<close>; its \<^verbatim>\<open>Level\<close> is a \<^verbatim>\<open>Leveler\<close> that may be nil.\<close>

record 'r HandlerOptions =
  hLevel :: "int option"
  hAddSource :: bool
  hReplaceAttr :: "'r replaceAttr option"

text \<open>The inner \<^verbatim>\<open>slog.Handler\<close>. It writes to the writer of the handler that holds it,
  which is kept once, in the field \<open>writer\<close>.\<close>

datatype 'r slogHandler =
    JSONHandler "'r HandlerOptions"
  | TextHandler "'r HandlerOptions"
  | LineHandler "'r HandlerOptions"

record ('c, 'x, 'h, 'r) Handler =
  opts :: "('c, 'x, 'h, 'r) Options"
  writer :: "'c writer"
  handler :: "'r slogHandler"
  traceExtractor :: "'x option"
  traceIDFieldName :: string
  spanIDFieldName :: string
  recordHandle :: "'h option"

definition NewHandler ::
  "env \<Rightarrow> world \<Rightarrow> ('c, 'x, 'h, 'r) Options option \<Rightarrow> world \<times> ('c, 'x, 'h, 'r) Handler" where
  "NewHandler E w optsArg =
     (let os = (case optsArg of None \<Rightarrow> defaultOptions | Some given \<Rightarrow> given);
          (w', wr) =
            (case Writer os of
               Some x \<Rightarrow> (w, x)
             | None \<Rightarrow>
                if LogPath os \<noteq> [] then
                  (case NewFileWriterWithFlushInterval E w (LogPath os) (MaxFiles os)
                          (FlushInterval os) of
                     (w1, fw) \<Rightarrow> (w1, FileWriterOf fw))
                else (w, OsFile os_Stdout));
          handlerOpts =
            \<lparr>hLevel = Some (Level os), hAddSource = AddSource os,
             hReplaceAttr = mergeReplaceAttr (Some DefaultTimeReplaceAttr) (ReplaceAttr os)\<rparr>
      in (w',
          \<lparr>opts = os, writer = wr,
           handler =
             (if Format os = FormatJSON then JSONHandler handlerOpts
              else if Format os = FormatText then TextHandler handlerOpts
              else if Format os = FormatLine then LineHandler handlerOpts
              else LineHandler handlerOpts),
           traceExtractor = TraceExtractor os,
           traceIDFieldName = TraceIDFieldName os,
           spanIDFieldName = SpanIDFieldName os,
           recordHandle = RecordHandler os\<rparr>))"

text \<open>\<^verbatim>\<open>Enabled\<close> of the inner handler: \<^verbatim>\<open>LineHandler.Enabled\<close> lets every level through
  when no level is set; the two handlers of \<^verbatim>\<open>log/slog\<close> then take \<^verbatim>\<open>LevelInfo\<close>.\<close>

fun slogEnabled :: "'r slogHandler \<Rightarrow> int \<Rightarrow> bool" where
  "slogEnabled (LineHandler ho) level = (case hLevel ho of None \<Rightarrow> True | Some l \<Rightarrow> l \<le> level)"
| "slogEnabled (JSONHandler ho) level = (case hLevel ho of None \<Rightarrow> LevelInfo \<le> level | Some l \<Rightarrow> l \<le> level)"
| "slogEnabled (TextHandler ho) level = (case hLevel ho of None \<Rightarrow> LevelInfo \<le> level | Some l \<Rightarrow> l \<le> level)"

definition Enabled :: "('c, 'x, 'h, 'r) Handler \<Rightarrow> int \<Rightarrow> bool" where
  "Enabled h level = slogEnabled (handler h) level"




subsection \<open>A concrete environment for the examples\<close>

text \<open>
  Paths of the form \<open>dir/name\<close> with no other separator, for which \<^verbatim>\<open>filepath.Dir\<close>,
  \<^verbatim>\<open>Base\<close> and \<^verbatim>\<open>Join\<close> split and join at the slash; a layout without time tokens,
  which \<^verbatim>\<open>Format\<close> returns as it is; a directory listing in place of \<^verbatim>\<open>Glob\<close>; and
  insertion sort, newest first.
\<close>

fun insertNewest :: "(path \<times> int) \<Rightarrow> (path \<times> int) list \<Rightarrow> (path \<times> int) list" where
  "insertNewest x [] = [x]"
| "insertNewest x (y # ys) = (if snd y \<le> snd x then x # y # ys else y # insertNewest x ys)"

fun sortNewest :: "(path \<times> int) list \<Rightarrow> (path \<times> int) list" where
  "sortNewest [] = []"
| "sortNewest (x # xs) = insertNewest x (sortNewest xs)"

definition exampleEnv :: "path list \<Rightarrow> env" where
  "exampleEnv listing =
     \<lparr>filepath_Dir = (\<lambda>p. rev (drop 1 (dropWhile (\<lambda>c. c \<noteq> CHR ''/'') (rev p)))),
      filepath_Base = (\<lambda>p. rev (takeWhile (\<lambda>c. c \<noteq> CHR ''/'') (rev p))),
      filepath_Join = (\<lambda>d n. d @ ''/'' @ n),
      filepath_Glob = (\<lambda>fs pat. Inr (filter (\<lambda>p. fs p \<noteq> None) listing)),
      time_Format = (\<lambda>t layout. layout),
      sort_Slice = sortNewest\<rparr>"

definition emptyWorld :: world where
  "emptyWorld = \<lparr>fsys = Map.empty, fault = (\<lambda>opn p. None), now = 0\<rparr>"

text \<open>A writer on \<open>logs/name\<close> before its first rotation check.\<close>

definition exampleWriter :: "string \<Rightarrow> FileWriter" where
  "exampleWriter name =
     \<lparr>path = ''logs/'' @ name, dir = ''logs'', fileName = name, current = [], file' = None,
      buf = None, maxFiles = 0, flushInterval = 0, loopStopped = False\<rparr>"



subsection \<open>The invariant of the buffer\<close>

text \<open>The buffer is there exactly when buffering is on and a file is held. Buffering is
  on when the duration that the constructor computes from the seconds is positive.\<close>

definition bufferInvariant :: "FileWriter \<Rightarrow> bool" where
  "bufferInvariant f = ((buf f \<noteq> None) = (0 < flushInterval f \<and> file' f \<noteq> None))"

text \<open>Closing the file that the writer holds, if it holds one, reports no error.\<close>

definition closeSucceeds :: "world \<Rightarrow> FileWriter \<Rightarrow> bool" where
  "closeSucceeds w f = (case file' f of None \<Rightarrow> True | Some h \<Rightarrow> snd (File_Close w h) = None)"

subsection \<open>Example worlds and writers\<close>

text \<open>A world in which one kind of operation always fails, and otherwise empty.\<close>

definition faultyWorld :: "op \<Rightarrow> error \<Rightarrow> world" where
  "faultyWorld failing e =
     emptyWorld\<lparr>fault := (\<lambda>opn p. if opn = failing then Some e else None)\<rparr>"

text \<open>A world after \<open>logs/app.log\<close> has been created in it.\<close>

definition withAppLog :: "world \<Rightarrow> world" where
  "withAppLog w =
     w\<lparr>fsys := (fsys w)(''logs/app.log'' \<mapsto> \<lparr>isDir = False, modTime = now w, content = []\<rparr>)\<rparr>"

definition appLog :: os_File where
  "appLog = \<lparr>fname = ''logs/app.log'', closed = False\<rparr>"

text \<open>The writer that the constructor returns for \<open>logs/app.log\<close>, no retention and the
  flush interval \<open>d\<close>; the same writer after a \<^verbatim>\<open>Close\<close> that succeeded; and the
  buffered one after a write of \<open>x\<close>.\<close>

definition appLogWriter :: "int \<Rightarrow> FileWriter" where
  "appLogWriter d =
     \<lparr>path = ''logs/app.log'', dir = ''logs'', fileName = ''app.log'',
      current = ''logs/app.log'', file' = Some appLog,
      buf = (if 0 < d then Some bufio_NewWriter else None), maxFiles = 0, flushInterval = d,
      loopStopped = False\<rparr>"

definition closedWriter :: "int \<Rightarrow> FileWriter" where
  "closedWriter d = (appLogWriter d)\<lparr>file' := None, buf := None, loopStopped := True\<rparr>"

definition pendingWriter :: FileWriter where
  "pendingWriter = (appLogWriter 1000000000)\<lparr>buf := Some \<lparr>pending = ''x'', berr = None\<rparr>\<rparr>"


subsection \<open>What a pruning pass looks at, deletes and keeps\<close>








section \<open>Properties\<close>

subsection \<open>Substrings and stars\<close>

lemma Contains_single: "Contains s [c] = (c \<in> set s)"
  by (auto simp: Contains_def sublist_def in_set_conv_decomp)

lemma Contains_05: "Contains s ''05'' \<Longrightarrow> Contains s ''5''"
  by (auto simp: Contains_def sublist_def) (metis append.assoc append_Cons append_Nil)

lemma getCheckInterval_char:
  "getCheckInterval f = (if CHR ''5'' \<in> set (fileName f) then Second else Minute)"
  using Contains_05[of "fileName f"] by (auto simp: getCheckInterval_def Contains_single)

lemma dropWhile_collapse_id:
  "xs = [] \<or> hd xs \<noteq> CHR ''*'' \<Longrightarrow>
   dropWhile (\<lambda>d. d = CHR ''*'') (collapseStars xs) = collapseStars xs"
  by (cases xs) auto

lemma dropWhile_hd: "dropWhile P xs = [] \<or> \<not> P (hd (dropWhile P xs))"
  by (induction xs) auto

lemma collapse_dropWhile:
  "collapseStars (dropWhile (\<lambda>d. d = CHR ''*'') xs) =
   dropWhile (\<lambda>d. d = CHR ''*'') (collapseStars xs)"
proof (cases xs)
  case Nil
  then show ?thesis by simp
next
  case (Cons c cs)
  show ?thesis
  proof (cases "c = CHR ''*''")
    case True
    have "dropWhile (\<lambda>d. d = CHR ''*'') (collapseStars (dropWhile (\<lambda>d. d = CHR ''*'') cs)) =
          collapseStars (dropWhile (\<lambda>d. d = CHR ''*'') cs)"
      using dropWhile_hd[of "\<lambda>d. d = CHR ''*''" cs] by (intro dropWhile_collapse_id) auto
    with True Cons show ?thesis by simp
  next
    case False
    with Cons show ?thesis by simp
  qed
qed

lemma collapse_Cons_cong:
  "collapseStars xs = collapseStars ys \<Longrightarrow> collapseStars (c # xs) = collapseStars (c # ys)"
  by (cases "c = CHR ''*''") (simp_all add: collapse_dropWhile)

lemma collapse_star_star:
  "collapseStars (CHR ''*'' # CHR ''*'' # xs) = collapseStars (CHR ''*'' # xs)"
  by simp

lemma filter_dropWhile_star:
  "filter (\<lambda>c. c \<noteq> CHR ''*'') (dropWhile (\<lambda>d. d = CHR ''*'') cs) = filter (\<lambda>c. c \<noteq> CHR ''*'') cs"
  by (induction cs) auto

lemma filter_collapse:
  "filter (\<lambda>c. c \<noteq> CHR ''*'') (collapseStars xs) = filter (\<lambda>c. c \<noteq> CHR ''*'') xs"
proof (induction xs rule: length_induct)
  case (1 xs)
  show ?case
  proof (cases xs)
    case Nil
    then show ?thesis by simp
  next
    case (Cons c cs)
    have "length (dropWhile (\<lambda>d. d = CHR ''*'') cs) < length xs"
      using Cons by (simp add: length_dropWhile_le less_Suc_eq_le)
    then show ?thesis using 1 Cons filter_dropWhile_star[of cs] by auto
  qed
qed

lemma filter_wildcard_literal:
  "filter (\<lambda>c. c \<noteq> CHR ''*'') (concat (map wildcard ps)) =
   filter (\<lambda>c. c \<noteq> CHR ''*'') (concat (map literal ps))"
proof (induction ps)
  case Nil
  then show ?case by simp
next
  case (Cons p ps)
  then show ?case by (cases p) simp_all
qed

subsection \<open>One step of the two scans\<close>

lemma replace_year:
  "prefix ''2006'' (c # cs) \<Longrightarrow>
   replaceTimeTokens (c # cs) = CHR ''*'' # replaceTimeTokens (drop 3 cs)"
  by simp

lemma tokens_year:
  "prefix ''2006'' (c # cs) \<Longrightarrow> timeTokens (c # cs) = Token ''2006'' # timeTokens (drop 3 cs)"
  by (cases "c = CHR ''2''") simp_all

lemma replace_two:
  "c = CHR ''0'' \<Longrightarrow> cs \<noteq> [] \<Longrightarrow> hd cs \<in> set ''123456'' \<Longrightarrow>
   replaceTimeTokens (c # cs) = CHR ''*'' # replaceTimeTokens (drop 1 cs)"
  by simp

lemma tokens_two:
  "c = CHR ''0'' \<Longrightarrow> cs \<noteq> [] \<Longrightarrow> hd cs \<in> set ''123456'' \<Longrightarrow>
   timeTokens (c # cs) = Token [c, hd cs] # timeTokens (drop 1 cs)"
  by simp

lemma replace_hour:
  "replaceTimeTokens (CHR ''1'' # CHR ''5'' # cs) = CHR ''*'' # CHR ''*'' # replaceTimeTokens cs"
  by simp

lemma tokens_hour: "timeTokens (CHR ''1'' # CHR ''5'' # cs) = Token ''15'' # timeTokens cs"
  by simp

lemma replace_one:
  "c \<in> set ''12345'' \<Longrightarrow> \<not> prefix ''2006'' (c # cs) \<Longrightarrow>
   replaceTimeTokens (c # cs) = CHR ''*'' # replaceTimeTokens cs"
  by (cases "c = CHR ''2''"; cases "c = CHR ''0''") auto

lemma tokens_one:
  "c \<in> set ''12345'' \<Longrightarrow> \<not> prefix ''2006'' (c # cs) \<Longrightarrow> \<not> (c = CHR ''1'' \<and> prefix ''5'' cs) \<Longrightarrow>
   timeTokens (c # cs) = Token [c] # timeTokens cs"
  by (cases "c = CHR ''2''"; cases "c = CHR ''0''"; cases "c = CHR ''1''") auto

lemma replace_lit:
  "c \<notin> set ''12345'' \<Longrightarrow> \<not> (c = CHR ''0'' \<and> cs \<noteq> [] \<and> hd cs \<in> set ''123456'') \<Longrightarrow>
   replaceTimeTokens (c # cs) = c # replaceTimeTokens cs"
  by (cases "c = CHR ''2''"; cases "c = CHR ''0''"; cases "c = CHR ''1''") auto

lemma tokens_lit:
  "c \<notin> set ''12345'' \<Longrightarrow> \<not> (c = CHR ''0'' \<and> cs \<noteq> [] \<and> hd cs \<in> set ''123456'') \<Longrightarrow>
   timeTokens (c # cs) = Lit c # timeTokens cs"
  by (cases "c = CHR ''2''"; cases "c = CHR ''0''"; cases "c = CHR ''1''") auto

lemma step_token:
  "collapseStars xs = collapseStars (concat (map wildcard ps)) \<Longrightarrow>
   collapseStars (CHR ''*'' # xs) = collapseStars (concat (map wildcard (Token t # ps)))"
  using collapse_Cons_cong[of xs "concat (map wildcard ps)" "CHR ''*''"] by simp

lemma step_lit:
  "collapseStars xs = collapseStars (concat (map wildcard ps)) \<Longrightarrow>
   collapseStars (c # xs) = collapseStars (concat (map wildcard (Lit c # ps)))"
  using collapse_Cons_cong[of xs "concat (map wildcard ps)" c] by simp

text \<open>The regular expression and the scan by tokens give the same glob: where they
  differ, at the hour \<open>15\<close>, the two stars of the one collapse into the star of the other.\<close>

lemma globName_globOfTokens: "globName s = globOfTokens s"
  unfolding globName_def globOfTokens_def
proof (induction s rule: length_induct)
  case (1 s)
  show ?case
  proof (cases s)
    case Nil
    then show ?thesis by simp
  next
    case (Cons c cs)
    have IH: "collapseStars (replaceTimeTokens t) =
              collapseStars (concat (map wildcard (timeTokens t)))"
      if "length t \<le> length cs" for t
      using 1 Cons that by simp
    have IH0: "collapseStars (replaceTimeTokens cs) =
               collapseStars (concat (map wildcard (timeTokens cs)))"
      using IH by simp
    have IH1: "collapseStars (replaceTimeTokens (drop 1 cs)) =
               collapseStars (concat (map wildcard (timeTokens (drop 1 cs))))"
      using IH by simp
    have IH3: "collapseStars (replaceTimeTokens (drop 3 cs)) =
               collapseStars (concat (map wildcard (timeTokens (drop 3 cs))))"
      using IH by simp
    consider (year) "prefix ''2006'' (c # cs)"
      | (two) "c = CHR ''0''" "cs \<noteq> []" "hd cs \<in> set ''123456''"
      | (hour) "c = CHR ''1''" "prefix ''5'' cs"
      | (one) "c \<in> set ''12345''" "\<not> prefix ''2006'' (c # cs)"
          "\<not> (c = CHR ''1'' \<and> prefix ''5'' cs)"
      | (lit) "c \<notin> set ''12345''"
          "\<not> (c = CHR ''0'' \<and> cs \<noteq> [] \<and> hd cs \<in> set ''123456'')"
      by auto
    then show ?thesis
    proof cases
      case year
      show ?thesis
        unfolding Cons replace_year[OF year] tokens_year[OF year] by (rule step_token[OF IH3])
    next
      case two
      show ?thesis
        unfolding Cons replace_two[OF two] tokens_two[OF two] by (rule step_token[OF IH1])
    next
      case hour
      then obtain cs' where cs: "cs = CHR ''5'' # cs'"
        by (cases cs) auto
      have d: "drop 1 cs = cs'"
        using cs by simp
      have "collapseStars (CHR ''*'' # CHR ''*'' # replaceTimeTokens cs') =
            collapseStars (concat (map wildcard (Token ''15'' # timeTokens cs')))"
        unfolding collapse_star_star by (rule step_token[OF IH1[unfolded d]])
      then show ?thesis
        unfolding Cons cs hour(1) replace_hour tokens_hour .
    next
      case one
      show ?thesis
        unfolding Cons replace_one[OF one(1,2)] tokens_one[OF one] by (rule step_token[OF IH0])
    next
      case lit
      show ?thesis
        unfolding Cons replace_lit[OF lit] tokens_lit[OF lit] by (rule step_lit[OF IH0])
    qed
  qed
qed

text \<open>A token is made of characters of the layout, so a layout with a seconds token
  holds the character \<open>5\<close>.\<close>

lemma timeTokens_chars: "Token t \<in> set (timeTokens s) \<Longrightarrow> set t \<subseteq> set s"
proof (induction s rule: length_induct)
  case (1 s)
  show ?case
  proof (cases s)
    case Nil
    with 1 show ?thesis by simp
  next
    case (Cons c cs)
    have IH: "\<And>u. length u \<le> length cs \<Longrightarrow> Token t \<in> set (timeTokens u) \<Longrightarrow> set t \<subseteq> set u"
      using 1 Cons by simp
    have d1: "set (drop 1 cs) \<subseteq> set cs"
      by (rule set_drop_subset)
    have d3: "set (drop 3 cs) \<subseteq> set cs"
      by (rule set_drop_subset)
    have I0: "Token t \<in> set (timeTokens cs) \<Longrightarrow> set t \<subseteq> set cs"
      using IH by simp
    have I1: "Token t \<in> set (timeTokens (drop 1 cs)) \<Longrightarrow> set t \<subseteq> set cs"
      using IH[of "drop 1 cs"] d1 by auto
    have I3: "Token t \<in> set (timeTokens (drop 3 cs)) \<Longrightarrow> set t \<subseteq> set cs"
      using IH[of "drop 3 cs"] d3 by auto
    have p5: "prefix ''5'' cs \<Longrightarrow> CHR ''5'' \<in> set cs"
      by (cases cs) auto
    have p006: "prefix ''006'' cs \<Longrightarrow> CHR ''0'' \<in> set cs \<and> CHR ''6'' \<in> set cs"
      by (auto simp: prefix_def)
    have hd: "cs \<noteq> [] \<Longrightarrow> hd cs \<in> set cs"
      by simp
    from 1(2) show ?thesis
      unfolding Cons
      by (auto simp del: One_nat_def split: if_splits dest!: I0 I1 I3 p5 p006 hd)
  qed
qed

lemma hasSecondsToken_interval: "hasSecondsToken (fileName f) \<Longrightarrow> getCheckInterval f = Second"
  unfolding hasSecondsToken_def getCheckInterval_char using timeTokens_chars by fastforce

subsection \<open>The check interval\<close>

text \<open>
  C2. The claim: the check interval is one second exactly when the file name holds a
  seconds token, and a layout whose finest token is the hour \<open>15\<close> is checked every
  minute. \<^verbatim>\<open>getCheckInterval\<close> looks for the character \<open>5\<close>, which the hour token holds
  as well: on the hourly layout \<open>app-2006-01-02-15.log\<close>, whose tokens are the year, the
  month, the day and the hour, it answers one second.
\<close>

theorem getCheckInterval_hour_layout:
  "getCheckInterval (f\<lparr>fileName := ''app-2006-01-02-15.log''\<rparr>) = Second
   \<and> timeTokens ''app-2006-01-02-15.log'' =
       [Lit CHR ''a'', Lit CHR ''p'', Lit CHR ''p'', Lit CHR ''-'', Token ''2006'', Lit CHR ''-'',
        Token ''01'', Lit CHR ''-'', Token ''02'', Lit CHR ''-'', Token ''15'', Lit CHR ''.'',
        Lit CHR ''l'', Lit CHR ''o'', Lit CHR ''g'']
   \<and> \<not> hasSecondsToken ''app-2006-01-02-15.log''"
  by (simp add: getCheckInterval_char hasSecondsToken_def)

subsection \<open>The retention glob\<close>

text \<open>
  C3, as amended. The glob is the directory joined with the file name in which every
  token (\<open>2006\<close>; \<open>0\<close> followed by \<open>1\<close> to \<open>6\<close>; \<open>15\<close>; \<open>1\<close> to \<open>5\<close>) has become a star
  and every run of stars one star; the characters other than the star that belong to no
  token are kept, in their order. A run of stars written in the file name collapses as
  well.
\<close>

theorem buildGlobPattern_tokens:
  "buildGlobPattern E f = filepath_Join E (dir f) (globOfTokens (fileName f))
   \<and> filter (\<lambda>c. c \<noteq> CHR ''*'') (globOfTokens (fileName f)) =
       filter (\<lambda>c. c \<noteq> CHR ''*'') (concat (map literal (timeTokens (fileName f))))"
  by (simp add: buildGlobPattern_def globName_globOfTokens globOfTokens_def filter_collapse
      filter_wildcard_literal)

text \<open>The claim as stated fails on a file name without any token that holds two stars
  in a row: one of them is not kept.\<close>

theorem buildGlobPattern_stars_counterexample:
  "timeTokens ''a**b.log'' = map Lit ''a**b.log''
   \<and> globName ''a**b.log'' \<noteq> ''a**b.log''
   \<and> buildGlobPattern (exampleEnv []) (exampleWriter ''a**b.log'') = ''logs/a*b.log''"
  by (simp add: buildGlobPattern_def globName_def exampleEnv_def exampleWriter_def)

subsection \<open>The trace extractor\<close>

lemma scanKeys_firstMatch: "scanKeys ctx keys = firstMatch ctx keys"
  by (induction keys)
     (auto simp: firstMatch_def nonEmptyString_def stringOf_def split: option.splits any.splits)

text \<open>
  C8. For the trace identifier and for the span identifier the extractor takes the first
  of the four keys, in the order \<open>trace_id\<close>, \<open>traceId\<close>, \<open>TraceID\<close>, \<open>TRACE_ID\<close> (and
  the same for spans), whose value is a non-empty string, and it returns nothing exactly
  when both identifiers are empty.
\<close>

theorem DefaultTraceExtractor_first_match:
  "DefaultTraceExtractor ctx =
     (if firstMatch ctx [''trace_id'', ''traceId'', ''TraceID'', ''TRACE_ID''] = []
         \<and> firstMatch ctx [''span_id'', ''spanId'', ''SpanID'', ''SPAN_ID''] = []
      then None
      else Some \<lparr>TraceID = firstMatch ctx [''trace_id'', ''traceId'', ''TraceID'', ''TRACE_ID''],
                 SpanID = firstMatch ctx [''span_id'', ''spanId'', ''SpanID'', ''SPAN_ID'']\<rparr>)"
  by (simp only: DefaultTraceExtractor_def Let_def scanKeys_firstMatch traceKeys_def spanKeys_def)

subsection \<open>The handler\<close>

text \<open>
  C9. A handler made from nil options writes to standard output through the single-line
  handler, lets through the levels from \<open>Info\<close> on, and has no trace extractor and no
  record handler; the world is left as it was.
\<close>

theorem NewHandler_nil_defaults:
  "NewHandler E w None =
     (w, \<lparr>opts = defaultOptions, writer = OsFile os_Stdout,
          handler = LineHandler \<lparr>hLevel = Some LevelInfo, hAddSource = False,
                                 hReplaceAttr = Some DefaultTimeReplaceAttr\<rparr>,
          traceExtractor = None, traceIDFieldName = ''trace_id'', spanIDFieldName = ''span_id'',
          recordHandle = None\<rparr>)
   \<and> (\<forall>level. Enabled (snd (NewHandler E w None)) level = (LevelInfo \<le> level))"
  by (simp add: NewHandler_def defaultOptions_def mergeReplaceAttr_def Enabled_def
      FormatLine_def FormatJSON_def FormatText_def defaultTraceIDFieldName_def
      defaultSpanIDFieldName_def)





subsection \<open>The parts of the writer's methods\<close>

lemma fault_File_Write: "fault (fst (File_Write w ho p)) = fault w"
  by (simp add: File_Write_def split: option.splits)

lemma fault_bufio_Flush: "fault (fst (bufio_Flush w ho b)) = fault w"
  using fault_File_Write[of w ho "pending b"]
  by (auto simp: bufio_Flush_def split: prod.splits option.splits)

lemma flushAndDrop_fields:
  "flushAndDrop w f = (w1, f1, e) \<Longrightarrow>
   fault w1 = fault w \<and> file' f1 = file' f \<and> flushInterval f1 = flushInterval f
   \<and> current f1 = current f \<and> (e = None \<longrightarrow> buf f1 = None)
   \<and> (e \<noteq> None \<longrightarrow> buf f1 \<noteq> None \<and> buf f \<noteq> None)"
  using fault_bufio_Flush[of w "file' f" "the (buf f)"]
  by (auto simp: flushAndDrop_def split: option.splits prod.splits)

lemma closeAndDrop_fields:
  "closeAndDrop w f = (f2, e) \<Longrightarrow>
   buf f2 = buf f \<and> flushInterval f2 = flushInterval f \<and> current f2 = current f
   \<and> (e = None \<longrightarrow> file' f2 = None) \<and> (e \<noteq> None \<longrightarrow> file' f2 \<noteq> None)"
  by (auto simp: closeAndDrop_def split: option.splits prod.splits)

lemma flushAndDrop_stopped: "flushAndDrop w f = (w1, f1, e) \<Longrightarrow> loopStopped f1 = loopStopped f"
  by (auto simp: flushAndDrop_def split: option.splits prod.splits)

lemma closeAndDrop_stopped: "closeAndDrop w f = (f2, e) \<Longrightarrow> loopStopped f2 = loopStopped f"
  by (auto simp: closeAndDrop_def split: option.splits prod.splits)

lemma closeAndDrop_succeeds: "closeSucceeds w f \<Longrightarrow> snd (closeAndDrop w f) = None"
  by (auto simp: closeAndDrop_def closeSucceeds_def split: option.splits prod.splits)

lemma closeSucceeds_cong:
  "fault w1 = fault w \<Longrightarrow> file' f1 = file' f \<Longrightarrow> closeSucceeds w1 f1 = closeSucceeds w f"
  by (simp add: closeSucceeds_def File_Close_def split: option.splits)

lemma openCurrentLocked_ok:
  "openCurrentLocked w f = (w1, f1, None) \<Longrightarrow>
   file' f1 \<noteq> None \<and> flushInterval f1 = flushInterval f"
  by (auto simp: openCurrentLocked_def split: sum.splits prod.splits)


lemma Close_closed:
  assumes "Close w f = (w1, f1, None)"
  shows "file' f1 = None \<and> buf f1 = None \<and> loopStopped f1"
proof -
  obtain wa fa ea where s1: "flushAndDrop w (f\<lparr>loopStopped := True\<rparr>) = (wa, fa, ea)"
    by (cases "flushAndDrop w (f\<lparr>loopStopped := True\<rparr>)") auto
  obtain fb eb where s2: "closeAndDrop wa fa = (fb, eb)"
    by (cases "closeAndDrop wa fa") auto
  from assms s1 s2 have e: "ea = None" "eb = None" "fb = f1"
    by (auto simp: Close_def split: option.splits)
  from flushAndDrop_fields[OF s1] flushAndDrop_stopped[OF s1] closeAndDrop_fields[OF s2]
    closeAndDrop_stopped[OF s2] e
  show ?thesis by simp
qed

lemma Close_of_closed:
  "file' f = None \<Longrightarrow> buf f = None \<Longrightarrow> loopStopped f \<Longrightarrow> Close w f = (w, f, None)"
  by (simp add: Close_def flushAndDrop_def closeAndDrop_def)

subsection \<open>The examples, evaluated\<close>

lemma wrap64_small: "- (2 ^ 63) \<le> x \<Longrightarrow> x < 2 ^ 63 \<Longrightarrow> wrap64 x = x"
  by (simp add: wrap64_def)

lemma New_example:
  assumes "fault w OpOpen ''logs/app.log'' = None" "fsys w ''logs/app.log'' = None"
    "- 9 \<le> s" "s \<le> 9"
  shows "NewFileWriterWithFlushInterval (exampleEnv []) w ''logs/app.log'' 0 s
         = (withAppLog w, appLogWriter (s * 1000000000))"
proof -
  have "wrap64 (s * 1000000000) = s * 1000000000"
    using assms(3,4) by (intro wrap64_small) auto
  then show ?thesis
    using assms(1,2)
    by (simp add: NewFileWriterWithFlushInterval_def checkAndRotate_def exampleEnv_def
        time_Second_def flushAndDrop_def closeAndDrop_def openCurrentLocked_def os_OpenFile_def
        withAppLog_def appLogWriter_def appLog_def Let_def)
qed

lemma Close_appLogWriter:
  "fault w OpClose ''logs/app.log'' = None \<Longrightarrow>
   Close w (appLogWriter d) = (w, closedWriter d, None)"
  by (simp add: Close_def flushAndDrop_def closeAndDrop_def appLogWriter_def closedWriter_def
      appLog_def bufio_Flush_def bufio_NewWriter_def File_Close_def)

lemma Close_appLogWriter_fails:
  "fault w OpClose ''logs/app.log'' = Some e \<Longrightarrow>
   Close w (appLogWriter d) =
     (w, (appLogWriter d)\<lparr>file' := Some (appLog\<lparr>closed := True\<rparr>), buf := None,
                          loopStopped := True\<rparr>, Some e)"
  by (simp add: Close_def flushAndDrop_def closeAndDrop_def appLogWriter_def
      appLog_def bufio_Flush_def bufio_NewWriter_def File_Close_def)





lemma faultyWorld_fields:
  "fault (faultyWorld k e) opn p = (if opn = k then Some e else None)"
  "fsys (faultyWorld k e) = Map.empty" "now (faultyWorld k e) = 0"
  "fault emptyWorld opn p = None" "fsys emptyWorld = Map.empty" "now emptyWorld = 0"
  by (simp_all add: faultyWorld_def emptyWorld_def)

lemma withAppLog_fields:
  "fault (withAppLog w) = fault w" "now (withAppLog w) = now w"
  "fsys (withAppLog w) ''logs/app.log'' = Some \<lparr>isDir = False, modTime = now w, content = []\<rparr>"
  by (simp_all add: withAppLog_def)

subsection \<open>A write of no bytes\<close>







subsection \<open>A write after a close\<close>






subsection \<open>Closing twice\<close>

text \<open>
  C6, as amended. After a first \<^verbatim>\<open>Close\<close> that returned no error, a second \<^verbatim>\<open>Close\<close>
  returns no error and changes neither the writer nor the world, with buffering on or
  off. (The cancel function may be called again and the \<^verbatim>\<open>done\<close> channel, once closed,
  is received from at once, so the second call does not block or panic.)
\<close>

theorem Close_twice: "Close w f = (w1, f1, None) \<Longrightarrow> Close w1 f1 = (w1, f1, None)"
  using Close_closed[of w f w1 f1] Close_of_closed[of f1 w1] by simp

theorem Close_twice_witness:
  "Close (withAppLog emptyWorld) (appLogWriter 1000000000) =
     (withAppLog emptyWorld, closedWriter 1000000000, None)
   \<and> Close (withAppLog emptyWorld) (closedWriter 1000000000) =
       (withAppLog emptyWorld, closedWriter 1000000000, None)"
proof -
  have c: "Close (withAppLog emptyWorld) (appLogWriter 1000000000) =
           (withAppLog emptyWorld, closedWriter 1000000000, None)"
    by (rule Close_appLogWriter) (simp add: withAppLog_fields faultyWorld_fields)
  show ?thesis
    using c Close_twice[OF c] by simp
qed

text \<open>The claim as stated fails when the first \<^verbatim>\<open>Close\<close> returns an error. On a full
  disk the flush of the buffered \<open>x\<close> fails, the buffer stays, and the second \<^verbatim>\<open>Close\<close>
  fails on it again. Without buffering, a \<^verbatim>\<open>Close\<close> of the file that reports an error
  leaves the file in the writer, and the second \<^verbatim>\<open>Close\<close> closes a closed file.\<close>

theorem Close_twice_counterexample:
  "Write (withAppLog (faultyWorld OpWrite ErrNoSpace)) (appLogWriter 1000000000) ''x'' =
     (withAppLog (faultyWorld OpWrite ErrNoSpace), pendingWriter, 1, None)
   \<and> snd (snd (Close (withAppLog (faultyWorld OpWrite ErrNoSpace)) pendingWriter)) =
       Some ErrNoSpace
   \<and> snd (snd (Close (withAppLog (faultyWorld OpWrite ErrNoSpace))
                  (fst (snd (Close (withAppLog (faultyWorld OpWrite ErrNoSpace)) pendingWriter)))))
       = Some ErrNoSpace
   \<and> snd (snd (Close (withAppLog (faultyWorld OpClose ErrIO)) (appLogWriter 0))) = Some ErrIO
   \<and> snd (snd (Close (withAppLog (faultyWorld OpClose ErrIO))
                  (fst (snd (Close (withAppLog (faultyWorld OpClose ErrIO)) (appLogWriter 0))))))
       = Some ErrClosed"
proof -
  let ?wD = "withAppLog (faultyWorld OpWrite ErrNoSpace)"
  let ?wF = "withAppLog (faultyWorld OpClose ErrIO)"
  let ?stuck = "pendingWriter\<lparr>buf := Some \<lparr>pending = ''x'', berr = Some ErrNoSpace\<rparr>,
                               loopStopped := True\<rparr>"
  have w: "Write ?wD (appLogWriter 1000000000) ''x'' = (?wD, pendingWriter, 1, None)"
    by (simp add: Write_def appLogWriter_def pendingWriter_def bufio_Write_def
        bufio_NewWriter_def defaultBufSize_def)
  have c1: "Close ?wD pendingWriter = (?wD, ?stuck, Some ErrNoSpace)"
    by (simp add: Close_def flushAndDrop_def pendingWriter_def appLogWriter_def appLog_def
        bufio_Flush_def File_Write_def withAppLog_fields faultyWorld_fields)
  have c2: "Close ?wD ?stuck = (?wD, ?stuck, Some ErrNoSpace)"
    by (simp add: Close_def flushAndDrop_def pendingWriter_def appLogWriter_def appLog_def
        bufio_Flush_def)
  have d1: "Close ?wF (appLogWriter 0) =
            (?wF, (appLogWriter 0)\<lparr>file' := Some (appLog\<lparr>closed := True\<rparr>), buf := None,
                                   loopStopped := True\<rparr>, Some ErrIO)"
    by (rule Close_appLogWriter_fails) (simp add: withAppLog_fields faultyWorld_fields)
  have d2: "snd (snd (Close ?wF ((appLogWriter 0)\<lparr>file' := Some (appLog\<lparr>closed := True\<rparr>),
               buf := None, loopStopped := True\<rparr>))) = Some ErrClosed"
    by (simp add: Close_def flushAndDrop_def closeAndDrop_def File_Close_def appLog_def)
  show ?thesis
    using w c1 c2 d1 d2 by simp
qed

subsection \<open>The invariant of the buffer\<close>

lemma inv_open: "bufferInvariant (fst (snd (openCurrentLocked w f)))"
  by (auto simp: openCurrentLocked_def bufferInvariant_def split: sum.splits prod.splits)

lemma inv_flushBuffer: "bufferInvariant f \<Longrightarrow> bufferInvariant (snd (flushBuffer w f))"
  by (auto simp: flushBuffer_def bufferInvariant_def split: option.splits prod.splits)

lemma inv_Write:
  assumes "bufferInvariant f" "0 \<le> flushInterval f"
  shows "bufferInvariant (fst (snd (Write w f p)))"
proof (cases "file' f = None")
  case True
  obtain w1 f1 oe where o: "openCurrentLocked w f = (w1, f1, oe)"
    by (cases "openCurrentLocked w f") auto
  have i1: "bufferInvariant f1"
    using inv_open[of w f] o by simp
  show ?thesis
  proof (cases oe)
    case None
    with o openCurrentLocked_ok[of w f w1 f1]
    have "file' f1 \<noteq> None" "flushInterval f1 = flushInterval f"
      by auto
    with assms i1 show ?thesis
      using True o None by (auto simp: Write_def bufferInvariant_def split: prod.splits)
  next
    case (Some e)
    with i1 show ?thesis
      using True o by (simp add: Write_def)
  qed
next
  case False
  with assms show ?thesis
    by (auto simp: Write_def bufferInvariant_def split: prod.splits)
qed

lemma inv_Close:
  assumes "bufferInvariant f" "closeSucceeds w f"
  shows "bufferInvariant (fst (snd (Close w f)))"
proof -
  obtain w1 f1 e1 where s1: "flushAndDrop w (f\<lparr>loopStopped := True\<rparr>) = (w1, f1, e1)"
    by (cases "flushAndDrop w (f\<lparr>loopStopped := True\<rparr>)") auto
  note F = flushAndDrop_fields[OF s1]
  show ?thesis
  proof (cases e1)
    case (Some e)
    with F assms(1) have "bufferInvariant f1"
      by (auto simp: bufferInvariant_def)
    with s1 Some show ?thesis
      by (simp add: Close_def)
  next
    case None
    obtain f2 e2 where s2: "closeAndDrop w1 f1 = (f2, e2)"
      by (cases "closeAndDrop w1 f1") auto
    have "closeSucceeds w1 f1"
      using closeSucceeds_cong[of w1 w f1 f] F assms(2) by (simp add: closeSucceeds_def)
    then have "e2 = None"
      using closeAndDrop_succeeds[of w1 f1] s2 by simp
    with closeAndDrop_fields[OF s2] F None have "bufferInvariant f2"
      by (auto simp: bufferInvariant_def)
    with s1 s2 None show ?thesis
      by (simp add: Close_def)
  qed
qed

lemma inv_checkAndRotate:
  assumes "bufferInvariant f" "closeSucceeds w f"
  shows "bufferInvariant (snd (checkAndRotate E w f))"
proof -
  define cur where "cur = filepath_Join E (dir f) (time_Format E (now w) (fileName f))"
  show ?thesis
  proof (cases "cur = current f")
    case True
    with assms show ?thesis
      by (simp add: checkAndRotate_def cur_def Let_def)
  next
    case False
    obtain w1 f1 e1 where s1: "flushAndDrop w f = (w1, f1, e1)"
      by (cases "flushAndDrop w f") auto
    note F = flushAndDrop_fields[OF s1]
    show ?thesis
    proof (cases e1)
      case (Some e)
      with F assms(1) have "bufferInvariant f1"
        by (auto simp: bufferInvariant_def)
      then show ?thesis
        using False s1 Some by (simp add: checkAndRotate_def cur_def[symmetric] Let_def)
    next
      case None
      obtain f2 e2 where s2: "closeAndDrop w1 f1 = (f2, e2)"
        by (cases "closeAndDrop w1 f1") auto
      have "closeSucceeds w1 f1"
        using closeSucceeds_cong[of w1 w f1 f] F assms(2) by simp
      then have e2: "e2 = None"
        using closeAndDrop_succeeds[of w1 f1] s2 by simp
      obtain w3 f3 e3 where o: "openCurrentLocked w1 (f2\<lparr>current := cur\<rparr>) = (w3, f3, e3)"
        by (cases "openCurrentLocked w1 (f2\<lparr>current := cur\<rparr>)") auto
      have "bufferInvariant f3"
        using inv_open[of w1 "f2\<lparr>current := cur\<rparr>"] o by simp
      then show ?thesis
        using False s1 None s2 e2 o
        by (cases e3) (simp_all add: checkAndRotate_def cur_def[symmetric] Let_def)
    qed
  qed
qed

lemma openCurrentLocked_flushInterval:
  "flushInterval (fst (snd (openCurrentLocked w f))) = flushInterval f"
  by (auto simp: openCurrentLocked_def split: sum.splits prod.splits)

lemma checkAndRotate_flushInterval:
  "flushInterval (snd (checkAndRotate E w f)) = flushInterval f"
proof -
  define cur where "cur = filepath_Join E (dir f) (time_Format E (now w) (fileName f))"
  show ?thesis
  proof (cases "cur = current f")
    case True
    then show ?thesis
      by (simp add: checkAndRotate_def cur_def Let_def)
  next
    case False
    obtain w1 f1 e1 where s1: "flushAndDrop w f = (w1, f1, e1)"
      by (cases "flushAndDrop w f") auto
    note F = flushAndDrop_fields[OF s1]
    obtain f2 e2 where s2: "closeAndDrop w1 f1 = (f2, e2)"
      by (cases "closeAndDrop w1 f1") auto
    note G = closeAndDrop_fields[OF s2]
    obtain w3 f3 e3 where o: "openCurrentLocked w1 (f2\<lparr>current := cur\<rparr>) = (w3, f3, e3)"
      by (cases "openCurrentLocked w1 (f2\<lparr>current := cur\<rparr>)") auto
    have "flushInterval f3 = flushInterval f"
      using openCurrentLocked_flushInterval[of w1 "f2\<lparr>current := cur\<rparr>"] o F G by simp
    then show ?thesis
      using False s1 s2 o F G
      by (cases e1; cases e2; cases e3)
         (simp_all add: checkAndRotate_def cur_def[symmetric] Let_def)
  qed
qed

lemma New_flushInterval:
  assumes "0 \<le> s" "s \<le> 9223372036"
  shows "flushInterval (snd (NewFileWriterWithFlushInterval E w p m s)) = s * 1000000000"
proof -
  have "wrap64 (s * 1000000000) = s * 1000000000"
    using assms by (intro wrap64_small) auto
  then show ?thesis
    by (simp add: NewFileWriterWithFlushInterval_def checkAndRotate_flushInterval time_Second_def)
qed

lemma inv_New: "bufferInvariant (snd (NewFileWriterWithFlushInterval E w p m s))"
  unfolding NewFileWriterWithFlushInterval_def
  by (rule inv_checkAndRotate) (simp_all add: bufferInvariant_def closeSucceeds_def)

text \<open>
  C7, as amended. Buffering is on when the flush interval of the writer is positive, which
  for a number of seconds from 0 to 9223372036 (where the product in nanoseconds does not
  wrap) is when the seconds are. The constructor and \<^verbatim>\<open>openCurrentLocked\<close> establish
  the invariant;
  \<^verbatim>\<open>flushBuffer\<close> preserves it; \<^verbatim>\<open>Write\<close> preserves it on a writer whose flush interval
  is not negative; \<^verbatim>\<open>checkAndRotate\<close> and \<^verbatim>\<open>Close\<close> preserve it when closing the file
  held reports no error.
\<close>

theorem bufferInvariant_preserved:
  "bufferInvariant (snd (NewFileWriterWithFlushInterval E w pth m s))
   \<and> (0 \<le> s \<and> s \<le> 9223372036 \<longrightarrow>
        (0 < flushInterval (snd (NewFileWriterWithFlushInterval E w pth m s))) = (0 < s))
   \<and> bufferInvariant (fst (snd (openCurrentLocked w f)))
   \<and> (bufferInvariant f \<longrightarrow> bufferInvariant (snd (flushBuffer w f)))
   \<and> (bufferInvariant f \<and> 0 \<le> flushInterval f \<longrightarrow> bufferInvariant (fst (snd (Write w f p))))
   \<and> (bufferInvariant f \<and> closeSucceeds w f \<longrightarrow> bufferInvariant (snd (checkAndRotate E w f)))
   \<and> (bufferInvariant f \<and> closeSucceeds w f \<longrightarrow> bufferInvariant (fst (snd (Close w f))))"
  using inv_New inv_open inv_flushBuffer inv_Write inv_checkAndRotate inv_Close
    New_flushInterval[of s E w pth m]
  by auto

theorem bufferInvariant_preserved_witness:
  "bufferInvariant (appLogWriter 1000000000)
   \<and> 0 \<le> flushInterval (appLogWriter 1000000000)
   \<and> closeSucceeds (withAppLog emptyWorld) (appLogWriter 1000000000)
   \<and> bufferInvariant (snd (flushBuffer (withAppLog emptyWorld) (appLogWriter 1000000000)))
   \<and> bufferInvariant (fst (snd (Write (withAppLog emptyWorld) (appLogWriter 1000000000) ''x'')))
   \<and> bufferInvariant
       (snd (checkAndRotate (exampleEnv []) (withAppLog emptyWorld) (appLogWriter 1000000000)))
   \<and> bufferInvariant (fst (snd (Close (withAppLog emptyWorld) (appLogWriter 1000000000))))"
  using bufferInvariant_preserved[of "exampleEnv []" "withAppLog emptyWorld" "''logs/app.log''"
      0 1 "appLogWriter 1000000000" "''x''"]
  by (simp add: bufferInvariant_def closeSucceeds_def appLogWriter_def appLog_def
      File_Close_def withAppLog_fields faultyWorld_fields)

text \<open>The claim as stated fails in two ways. When closing the file reports an error,
  \<^verbatim>\<open>Close\<close> has already dropped the buffer and keeps the file. And a writer made with a
  negative number of seconds has no buffer after the constructor but gets one from the
  first write, which tests the interval against zero only.\<close>

theorem bufferInvariant_counterexample:
  "NewFileWriterWithFlushInterval (exampleEnv []) (faultyWorld OpClose ErrIO) ''logs/app.log'' 0 1
     = (withAppLog (faultyWorld OpClose ErrIO), appLogWriter 1000000000)
   \<and> bufferInvariant (appLogWriter 1000000000)
   \<and> \<not> bufferInvariant
         (fst (snd (Close (withAppLog (faultyWorld OpClose ErrIO)) (appLogWriter 1000000000))))
   \<and> NewFileWriterWithFlushInterval (exampleEnv []) emptyWorld ''logs/app.log'' 0 (- 1)
       = (withAppLog emptyWorld, appLogWriter (- 1000000000))
   \<and> bufferInvariant (appLogWriter (- 1000000000))
   \<and> \<not> bufferInvariant
         (fst (snd (Write (withAppLog emptyWorld) (appLogWriter (- 1000000000)) ''x'')))"
proof -
  have n1: "NewFileWriterWithFlushInterval (exampleEnv []) (faultyWorld OpClose ErrIO)
              ''logs/app.log'' 0 1
            = (withAppLog (faultyWorld OpClose ErrIO), appLogWriter 1000000000)"
    using New_example[of "faultyWorld OpClose ErrIO" 1] by (simp add: faultyWorld_fields)
  have n2: "NewFileWriterWithFlushInterval (exampleEnv []) emptyWorld ''logs/app.log'' 0 (- 1)
            = (withAppLog emptyWorld, appLogWriter (- 1000000000))"
    using New_example[of emptyWorld "- 1"] by (simp add: faultyWorld_fields)
  have c: "Close (withAppLog (faultyWorld OpClose ErrIO)) (appLogWriter 1000000000) =
           (withAppLog (faultyWorld OpClose ErrIO),
            (appLogWriter 1000000000)\<lparr>file' := Some (appLog\<lparr>closed := True\<rparr>), buf := None,
                                       loopStopped := True\<rparr>, Some ErrIO)"
    by (rule Close_appLogWriter_fails) (simp add: withAppLog_fields faultyWorld_fields)
  have w: "Write (withAppLog emptyWorld) (appLogWriter (- 1000000000)) ''x'' =
           (withAppLog emptyWorld,
            (appLogWriter (- 1000000000))\<lparr>buf := Some \<lparr>pending = ''x'', berr = None\<rparr>\<rparr>, 1, None)"
    by (simp add: Write_def appLogWriter_def bufio_Write_def bufio_NewWriter_def
        defaultBufSize_def)
  show ?thesis
    using n1 n2 c w by (simp add: bufferInvariant_def appLogWriter_def)
qed


subsection \<open>Retention pruning\<close>



















end
